theory Spec2Isabelle
  imports Main "HOL-Library.Word"
begin

section \<open>Time and durations\<close>

text \<open>
  The package \<^verbatim>\<open>internal/deadlineconn\<close> uses Go's \<^verbatim>\<open>time\<close> package. A
  \<^verbatim>\<open>time.Duration\<close> is an \<^verbatim>\<open>int64\<close> count of nanoseconds, so it is a 64-bit word
  read through \<open>sint\<close>; its \<open>+\<close> wraps around as Go's does. A \<^verbatim>\<open>time.Time\<close> is an
  instant, modelled as the (unbounded) number of nanoseconds since the zero instant
  \<^verbatim>\<open>time.Time{}\<close>, on one time line (wall clock and monotonic clock are not told apart).
\<close>

type_synonym Time = int
type_synonym Duration = "64 word"
type_synonym bytes = "8 word list"

definition maxDuration :: Duration where
  "maxDuration = 0x7FFFFFFFFFFFFFFF"

definition minDuration :: Duration where
  "minDuration = 0x8000000000000000"

definition Millisecond :: Duration where
  "Millisecond = 1000000"

text \<open>\<^verbatim>\<open>const updateInterval = 250 * time.Millisecond\<close>\<close>

definition updateInterval :: Duration where
  "updateInterval = 250 * Millisecond"

text \<open>\<^verbatim>\<open>t.IsZero()\<close>: \<open>t\<close> is the zero instant.\<close>

definition Time_IsZero :: "Time \<Rightarrow> bool" where
  "Time_IsZero t = (t = 0)"

text \<open>\<^verbatim>\<open>t.Sub(u)\<close>: the duration \<open>t - u\<close>, saturated at the largest and smallest duration.\<close>

definition Time_Sub :: "Time \<Rightarrow> Time \<Rightarrow> Duration" where
  "Time_Sub t u =
     (if t - u > sint maxDuration then maxDuration
      else if t - u < sint minDuration then minDuration
      else word_of_int (t - u))"

text \<open>\<^verbatim>\<open>t.Add(d)\<close>\<close>

definition Time_Add :: "Time \<Rightarrow> Duration \<Rightarrow> Time" where
  "Time_Add t d = t + sint d"

section \<open>The inner stream and the world around the wrapper\<close>

datatype error = DeadlineExceeded | ConnError string

text \<open>
  Calls that reach the inner \<^verbatim>\<open>net.Conn\<close>, and the events of a run: the inner calls
  and the stores to the two atomic flags, in the order in which they happen.
\<close>

datatype call =
    CRead bytes
  | CWrite bytes
  | CClose
  | CSetDeadline Time
  | CSetReadDeadline Time
  | CSetWriteDeadline Time

datatype event =
    Inner call
  | StoreAbortReads bool
  | StoreAbortWrites bool

text \<open>
  The world holds the events so far and the clock: \<open>clock w n\<close> is what the \<open>n\<close>-th
  call of \<^verbatim>\<open>time.Now()\<close> returns, and \<open>ticks w\<close> counts the calls made.
\<close>

record world =
  events :: "event list"
  clock :: "nat \<Rightarrow> Time"
  ticks :: nat

text \<open>
  The inner stream is any implementation of \<^verbatim>\<open>net.Conn\<close>: what each of its methods
  returns may depend on everything that happened before (the world) and on the argument.
\<close>

record net_Conn =
  connRead :: "world \<Rightarrow> bytes \<Rightarrow> int \<times> error option"
  connWrite :: "world \<Rightarrow> bytes \<Rightarrow> int \<times> error option"
  connClose :: "world \<Rightarrow> error option"
  connSetDeadline :: "world \<Rightarrow> Time \<Rightarrow> error option"
  connSetReadDeadline :: "world \<Rightarrow> Time \<Rightarrow> error option"
  connSetWriteDeadline :: "world \<Rightarrow> Time \<Rightarrow> error option"

text \<open>The struct \<^verbatim>\<open>DeadlineConn\<close> (the mutex \<^verbatim>\<open>mu\<close> has no state of its own in a sequential run).\<close>

record DeadlineConn =
  Conn :: net_Conn
  readDeadline :: Duration
  readSetAt :: Time
  writeDeadline :: Duration
  writeSetAt :: Time
  abortReads :: bool
  abortWrites :: bool

type_synonym state = "DeadlineConn \<times> world"

text \<open>\<^verbatim>\<open>time.Now()\<close> and \<^verbatim>\<open>time.Until(t)\<close>, which reads the clock once.\<close>

definition time_Now :: "world \<Rightarrow> Time \<times> world" where
  "time_Now w = (clock w (ticks w), w\<lparr>ticks := Suc (ticks w)\<rparr>)"

definition time_Until :: "Time \<Rightarrow> world \<Rightarrow> Duration \<times> world" where
  "time_Until t w = (case time_Now w of (now, w1) \<Rightarrow> (Time_Sub t now, w1))"

definition emit :: "event \<Rightarrow> world \<Rightarrow> world" where
  "emit e w = w\<lparr>events := events w @ [e]\<rparr>"

text \<open>\<^verbatim>\<open>c.abortReads.Store(v)\<close> and \<^verbatim>\<open>c.abortWrites.Store(v)\<close>\<close>

definition abortReads_Store :: "bool \<Rightarrow> state \<Rightarrow> state" where
  "abortReads_Store v s = (case s of (c, w) \<Rightarrow> (c\<lparr>abortReads := v\<rparr>, emit (StoreAbortReads v) w))"

definition abortWrites_Store :: "bool \<Rightarrow> state \<Rightarrow> state" where
  "abortWrites_Store v s = (case s of (c, w) \<Rightarrow> (c\<lparr>abortWrites := v\<rparr>, emit (StoreAbortWrites v) w))"

text \<open>The calls \<^verbatim>\<open>c.Conn.Read(b)\<close>, \<^verbatim>\<open>c.Conn.SetReadDeadline(t)\<close> and so on.\<close>

definition Conn_Read :: "DeadlineConn \<Rightarrow> bytes \<Rightarrow> world \<Rightarrow> (int \<times> error option) \<times> world" where
  "Conn_Read c b w = (connRead (Conn c) w b, emit (Inner (CRead b)) w)"

definition Conn_Write :: "DeadlineConn \<Rightarrow> bytes \<Rightarrow> world \<Rightarrow> (int \<times> error option) \<times> world" where
  "Conn_Write c b w = (connWrite (Conn c) w b, emit (Inner (CWrite b)) w)"

definition Conn_Close :: "DeadlineConn \<Rightarrow> world \<Rightarrow> error option \<times> world" where
  "Conn_Close c w = (connClose (Conn c) w, emit (Inner CClose) w)"

definition Conn_SetDeadline :: "DeadlineConn \<Rightarrow> Time \<Rightarrow> world \<Rightarrow> error option \<times> world" where
  "Conn_SetDeadline c t w = (connSetDeadline (Conn c) w t, emit (Inner (CSetDeadline t)) w)"

definition Conn_SetReadDeadline :: "DeadlineConn \<Rightarrow> Time \<Rightarrow> world \<Rightarrow> error option \<times> world" where
  "Conn_SetReadDeadline c t w =
     (connSetReadDeadline (Conn c) w t, emit (Inner (CSetReadDeadline t)) w)"

definition Conn_SetWriteDeadline :: "DeadlineConn \<Rightarrow> Time \<Rightarrow> world \<Rightarrow> error option \<times> world" where
  "Conn_SetWriteDeadline c t w =
     (connSetWriteDeadline (Conn c) w t, emit (Inner (CSetWriteDeadline t)) w)"

section \<open>The wrapper's operations\<close>

text \<open>
  \<^verbatim>\<open>setReadDeadline\<close>: the flag is loaded before and again after taking the lock; the
  result of \<^verbatim>\<open>c.Conn.SetReadDeadline\<close> is dropped, as in the source.
\<close>

definition setReadDeadline :: "state \<Rightarrow> state" where
  "setReadDeadline s =
     (case s of (c, w) \<Rightarrow>
        if sint (readDeadline c) \<le> 0 \<or> abortReads c then s
        else if abortReads c then s
        else (case time_Now w of (now, w1) \<Rightarrow>
          if sint updateInterval < sint (Time_Sub now (readSetAt c)) then
            (case Conn_SetReadDeadline c (Time_Add now (readDeadline c + updateInterval)) w1 of
               (_, w2) \<Rightarrow> (c\<lparr>readSetAt := now\<rparr>, w2))
          else (c, w1)))"

definition setWriteDeadline :: "state \<Rightarrow> state" where
  "setWriteDeadline s =
     (case s of (c, w) \<Rightarrow>
        if sint (writeDeadline c) \<le> 0 \<or> abortWrites c then s
        else if abortWrites c then s
        else (case time_Now w of (now, w1) \<Rightarrow>
          if sint updateInterval < sint (Time_Sub now (writeSetAt c)) then
            (case Conn_SetWriteDeadline c (Time_Add now (writeDeadline c + updateInterval)) w1 of
               (_, w2) \<Rightarrow> (c\<lparr>writeSetAt := now\<rparr>, w2))
          else (c, w1)))"

definition Read :: "bytes \<Rightarrow> state \<Rightarrow> (int \<times> error option) \<times> state" where
  "Read b s =
     (if abortReads (fst s) then ((0, Some DeadlineExceeded), s)
      else (case setReadDeadline s of (c1, w1) \<Rightarrow>
        (case Conn_Read c1 b w1 of (r, w2) \<Rightarrow> (r, (c1, w2)))))"

definition Write :: "bytes \<Rightarrow> state \<Rightarrow> (int \<times> error option) \<times> state" where
  "Write b s =
     (if abortWrites (fst s) then ((0, Some DeadlineExceeded), s)
      else (case setWriteDeadline s of (c1, w1) \<Rightarrow>
        (case Conn_Write c1 b w1 of (r, w2) \<Rightarrow> (r, (c1, w2)))))"

definition SetDeadline :: "Time \<Rightarrow> state \<Rightarrow> error option \<times> state" where
  "SetDeadline t s =
     (case s of (c, w) \<Rightarrow>
        if Time_IsZero t then
          (case (if readDeadline c = 0 then Conn_SetReadDeadline c t w else (None, w)) of
             (err, w1) \<Rightarrow>
               if writeDeadline c = 0 then
                 (case Conn_SetWriteDeadline c t w1 of (wErr, w2) \<Rightarrow>
                    if wErr \<noteq> None then (wErr, (c, w2))
                    else (err, abortWrites_Store False (abortReads_Store False (c, w2))))
               else (err, abortWrites_Store False (abortReads_Store False (c, w1))))
        else (case time_Until t w of (d, w1) \<Rightarrow>
          if sint d < 0 then
            (case abortWrites_Store True (abortReads_Store True (c, w1)) of (c2, w2) \<Rightarrow>
               (case Conn_SetDeadline c2 t w2 of (err, w3) \<Rightarrow> (err, (c2, w3))))
          else
            (case abortWrites_Store False (abortReads_Store False (c, w1)) of (c2, w2) \<Rightarrow>
               (case time_Now w2 of (now1, w3) \<Rightarrow>
                  (case time_Now w3 of (now2, w4) \<Rightarrow>
                     (case Conn_SetDeadline c2 t w4 of (err, w5) \<Rightarrow>
                        (err, (c2\<lparr>readSetAt := now1, writeSetAt := now2\<rparr>, w5))))))))"

definition SetReadDeadline :: "Time \<Rightarrow> state \<Rightarrow> error option \<times> state" where
  "SetReadDeadline t s =
     (case s of (c, w) \<Rightarrow>
        if Time_IsZero t \<and> readDeadline c \<noteq> 0 then (None, abortReads_Store False s)
        else (case time_Until t w of (d, w1) \<Rightarrow>
          (case abortReads_Store (sint d < 0) (c, w1) of (c2, w2) \<Rightarrow>
             (case time_Now w2 of (now, w3) \<Rightarrow>
                (case Conn_SetReadDeadline c2 t w3 of (err, w4) \<Rightarrow>
                   (err, (c2\<lparr>readSetAt := now\<rparr>, w4)))))))"

definition SetWriteDeadline :: "Time \<Rightarrow> state \<Rightarrow> error option \<times> state" where
  "SetWriteDeadline t s =
     (case s of (c, w) \<Rightarrow>
        if Time_IsZero t \<and> writeDeadline c \<noteq> 0 then (None, abortWrites_Store False s)
        else (case time_Until t w of (d, w1) \<Rightarrow>
          (case abortWrites_Store (sint d < 0) (c, w1) of (c2, w2) \<Rightarrow>
             (case time_Now w2 of (now, w3) \<Rightarrow>
                (case Conn_SetWriteDeadline c2 t w3 of (err, w4) \<Rightarrow>
                   (err, (c2\<lparr>writeSetAt := now\<rparr>, w4)))))))"

definition Close :: "state \<Rightarrow> error option \<times> state" where
  "Close s =
     (case abortWrites_Store True (abortReads_Store True s) of (c1, w1) \<Rightarrow>
        (case Conn_Close c1 w1 of (err, w2) \<Rightarrow> (err, (c1, w2))))"

definition WithReadDeadline :: "Duration \<Rightarrow> DeadlineConn \<Rightarrow> DeadlineConn" where
  "WithReadDeadline d c = c\<lparr>readDeadline := d\<rparr>"

definition WithWriteDeadline :: "Duration \<Rightarrow> DeadlineConn \<Rightarrow> DeadlineConn" where
  "WithWriteDeadline d c = c\<lparr>writeDeadline := d\<rparr>"

text \<open>\<^verbatim>\<open>New\<close>: every field but \<^verbatim>\<open>Conn\<close> has Go's zero value.\<close>

definition New :: "net_Conn \<Rightarrow> DeadlineConn" where
  "New c = \<lparr>Conn = c, readDeadline = 0, readSetAt = 0, writeDeadline = 0, writeSetAt = 0,
            abortReads = False, abortWrites = False\<rparr>"

section \<open>Runs of operations\<close>

text \<open>A caller's operations on one wrapper, one after the other, and what each returns.\<close>

datatype op =
    OpRead bytes
  | OpWrite bytes
  | OpSetDeadline Time
  | OpSetReadDeadline Time
  | OpSetWriteDeadline Time
  | OpClose
  | OpWithReadDeadline Duration
  | OpWithWriteDeadline Duration

datatype result = RIO "int \<times> error option" | RErr "error option" | RConn

fun step :: "op \<Rightarrow> state \<Rightarrow> result \<times> state" where
  "step (OpRead b) s = (case Read b s of (r, s') \<Rightarrow> (RIO r, s'))"
| "step (OpWrite b) s = (case Write b s of (r, s') \<Rightarrow> (RIO r, s'))"
| "step (OpSetDeadline t) s = (case SetDeadline t s of (e, s') \<Rightarrow> (RErr e, s'))"
| "step (OpSetReadDeadline t) s = (case SetReadDeadline t s of (e, s') \<Rightarrow> (RErr e, s'))"
| "step (OpSetWriteDeadline t) s = (case SetWriteDeadline t s of (e, s') \<Rightarrow> (RErr e, s'))"
| "step OpClose s = (case Close s of (e, s') \<Rightarrow> (RErr e, s'))"
| "step (OpWithReadDeadline d) s = (RConn, (WithReadDeadline d (fst s), snd s))"
| "step (OpWithWriteDeadline d) s = (RConn, (WithWriteDeadline d (fst s), snd s))"

fun run :: "op list \<Rightarrow> state \<Rightarrow> result list \<times> state" where
  "run [] s = ([], s)"
| "run (x # xs) s =
     (case step x s of (r, s1) \<Rightarrow> (case run xs s1 of (rs, s2) \<Rightarrow> (r # rs, s2)))"

fun isIO :: "op \<Rightarrow> bool" where
  "isIO (OpRead b) = True"
| "isIO (OpWrite b) = True"
| "isIO _ = False"

text \<open>A builder call whose duration is negative.\<close>

fun negativeBuilder :: "op \<Rightarrow> bool" where
  "negativeBuilder (OpWithReadDeadline d) = (sint d < 0)"
| "negativeBuilder (OpWithWriteDeadline d) = (sint d < 0)"
| "negativeBuilder _ = False"

text \<open>The deadline pushes of each direction among the events.\<close>

fun isReadPush :: "event \<Rightarrow> bool" where
  "isReadPush (Inner (CSetReadDeadline t)) = True"
| "isReadPush _ = False"

fun isWritePush :: "event \<Rightarrow> bool" where
  "isWritePush (Inner (CSetWriteDeadline t)) = True"
| "isWritePush _ = False"

definition readPushes :: "world \<Rightarrow> nat" where
  "readPushes w = length (filter isReadPush (events w))"

definition writePushes :: "world \<Rightarrow> nat" where
  "writePushes w = length (filter isWritePush (events w))"

text \<open>
  Every call of one of the inner stream's three deadline setters, whatever the direction.
\<close>

fun isDeadlineSet :: "event \<Rightarrow> bool" where
  "isDeadlineSet (Inner (CSetDeadline t)) = True"
| "isDeadlineSet (Inner (CSetReadDeadline t)) = True"
| "isDeadlineSet (Inner (CSetWriteDeadline t)) = True"
| "isDeadlineSet _ = False"

definition deadlineSets :: "world \<Rightarrow> nat" where
  "deadlineSets w = length (filter isDeadlineSet (events w))"

fun isReadOp :: "op \<Rightarrow> bool" where
  "isReadOp (OpRead b) = True"
| "isReadOp _ = False"

fun isWriteOp :: "op \<Rightarrow> bool" where
  "isWriteOp (OpWrite b) = True"
| "isWriteOp _ = False"

text \<open>What the next \<open>n\<close> calls of \<^verbatim>\<open>time.Now()\<close> return.\<close>

definition readings :: "world \<Rightarrow> nat \<Rightarrow> Time list" where
  "readings w n = map (clock w) [ticks w..<ticks w + n]"

section \<open>Test doubles\<close>

text \<open>An inner stream on which every call succeeds and transfers the whole buffer.\<close>

definition okConn :: net_Conn where
  "okConn = \<lparr>connRead = (\<lambda>w b. (int (length b), None)),
             connWrite = (\<lambda>w b. (int (length b), None)),
             connClose = (\<lambda>w. None),
             connSetDeadline = (\<lambda>w t. None),
             connSetReadDeadline = (\<lambda>w t. None),
             connSetWriteDeadline = (\<lambda>w t. None)\<rparr>"

text \<open>
  An inner stream whose calls fail, each with an error of its own; a write transfers
  one byte before it fails.
\<close>

definition failConn :: net_Conn where
  "failConn = \<lparr>connRead = (\<lambda>w b. (0, Some (ConnError ''read''))),
               connWrite = (\<lambda>w b. (1, Some (ConnError ''write''))),
               connClose = (\<lambda>w. Some (ConnError ''close'')),
               connSetDeadline = (\<lambda>w t. Some (ConnError ''set deadline'')),
               connSetReadDeadline = (\<lambda>w t. Some (ConnError ''set read deadline'')),
               connSetWriteDeadline = (\<lambda>w t. Some (ConnError ''set write deadline''))\<rparr>"

text \<open>
  Midnight (UTC) of 31 October 2026 in nanoseconds since the zero instant, and a world
  with no events whose clock reads that instant plus the given offsets (the last offset
  from then on).
\<close>

definition T0 :: Time where
  "T0 = 63929001600000000000"

definition offset :: "int list \<Rightarrow> nat \<Rightarrow> int" where
  "offset ds n = (if ds = [] then 0 else if n < length ds then ds ! n else last ds)"

definition worldAt :: "int list \<Rightarrow> world" where
  "worldAt ds = \<lparr>events = [], clock = (\<lambda>n. T0 + offset ds n), ticks = 0\<rparr>"

section \<open>Facts about durations and instants\<close>

lemma sint_updateInterval: "sint updateInterval = 250000000"
  by (simp add: updateInterval_def Millisecond_def)

lemma sint_maxDuration: "sint maxDuration = 9223372036854775807"
  by (simp add: maxDuration_def)

lemma sint_minDuration: "sint minDuration = - 9223372036854775808"
  by (simp add: minDuration_def)

lemma sint_word_of_int_64:
  assumes "- 9223372036854775808 \<le> x" and "x \<le> 9223372036854775807"
  shows "sint (word_of_int x :: 64 word) = x"
proof -
  have "(x + 9223372036854775808) mod 18446744073709551616 = x + 9223372036854775808"
    using assms by (intro mod_pos_pos_trivial) auto
  then show ?thesis
    by (simp add: int_word_sint)
qed

lemma sint_Time_Sub:
  "sint (Time_Sub t u) = max (- 9223372036854775808) (min 9223372036854775807 (t - u))"
proof -
  have "sint (if d > sint maxDuration then maxDuration
              else if d < sint minDuration then minDuration else word_of_int d)
        = max (- 9223372036854775808) (min 9223372036854775807 d)" for d
    by (auto simp: sint_maxDuration sint_minDuration sint_word_of_int_64)
  then show ?thesis
    unfolding Time_Sub_def .
qed

lemma Time_Sub_exceeds: "sint updateInterval < sint (Time_Sub t u) \<longleftrightarrow> 250000000 < t - u"
  by (auto simp: sint_Time_Sub sint_updateInterval)

lemma Time_Sub_negative: "sint (Time_Sub t u) < 0 \<longleftrightarrow> t < u"
  by (auto simp: sint_Time_Sub)

lemma sint_add_updateInterval:
  assumes "0 \<le> sint d" and "sint d \<le> 9223372036854775807 - 250000000"
  shows "sint (d + updateInterval) = sint d + 250000000"
proof -
  have "sint (d + updateInterval) = sint (word_of_int (sint d + sint updateInterval) :: 64 word)"
    by simp
  also have "\<dots> = sint d + sint updateInterval"
    using assms by (intro sint_word_of_int_64) (auto simp: sint_updateInterval)
  finally show ?thesis by (simp add: sint_updateInterval)
qed

lemma setReadDeadline_eq:
  "setReadDeadline (c, w) =
     (if 0 < sint (readDeadline c) \<and> \<not> abortReads c then
        (if 250000000 < clock w (ticks w) - readSetAt c then
           (c\<lparr>readSetAt := clock w (ticks w)\<rparr>,
            w\<lparr>ticks := Suc (ticks w),
              events := events w @
                [Inner (CSetReadDeadline (clock w (ticks w) + sint (readDeadline c + updateInterval)))]\<rparr>)
         else (c, w\<lparr>ticks := Suc (ticks w)\<rparr>))
      else (c, w))"
  by (simp add: setReadDeadline_def time_Now_def Conn_SetReadDeadline_def emit_def
      Time_Add_def Time_Sub_exceeds)

lemma setWriteDeadline_eq:
  "setWriteDeadline (c, w) =
     (if 0 < sint (writeDeadline c) \<and> \<not> abortWrites c then
        (if 250000000 < clock w (ticks w) - writeSetAt c then
           (c\<lparr>writeSetAt := clock w (ticks w)\<rparr>,
            w\<lparr>ticks := Suc (ticks w),
              events := events w @
                [Inner (CSetWriteDeadline (clock w (ticks w) + sint (writeDeadline c + updateInterval)))]\<rparr>)
         else (c, w\<lparr>ticks := Suc (ticks w)\<rparr>))
      else (c, w))"
  by (simp add: setWriteDeadline_def time_Now_def Conn_SetWriteDeadline_def emit_def
      Time_Add_def Time_Sub_exceeds)

lemmas prim_defs = time_Now_def time_Until_def emit_def abortReads_Store_def
  abortWrites_Store_def Conn_Read_def Conn_Write_def Conn_Close_def Conn_SetDeadline_def
  Conn_SetReadDeadline_def Conn_SetWriteDeadline_def Time_IsZero_def Time_Add_def

lemmas eval_defs = prim_defs Read_def Write_def SetDeadline_def SetReadDeadline_def
  SetWriteDeadline_def Close_def WithReadDeadline_def WithWriteDeadline_def New_def
  setReadDeadline_eq setWriteDeadline_eq Time_Sub_negative Time_Sub_exceeds
  okConn_def failConn_def worldAt_def T0_def offset_def readings_def
  readPushes_def writePushes_def deadlineSets_def

section \<open>Facts about runs\<close>

lemma snd_run_Cons: "snd (run (x # xs) s) = snd (run xs (snd (step x s)))"
  by (simp split: prod.splits)

text \<open>While both flags are set, reads and writes fail and change nothing.\<close>

lemma run_io_aborted:
  assumes "abortReads c" and "abortWrites c" and "\<forall>x\<in>set ops. isIO x"
  shows "run ops (c, w) = (replicate (length ops) (RIO (0, Some DeadlineExceeded)), (c, w))"
  using assms(3)
proof (induction ops)
  case Nil
  then show ?case by simp
next
  case (Cons x xs)
  then have "isIO x" by simp
  then have "step x (c, w) = (RIO (0, Some DeadlineExceeded), (c, w))"
    using assms(1,2) by (cases x) (simp_all add: Read_def Write_def)
  with Cons show ?case by simp
qed

text \<open>Only the builders change the configured timeouts.\<close>

lemma step_readDeadline:
  "readDeadline (fst (snd (step x s))) =
     (case x of OpWithReadDeadline d \<Rightarrow> d | _ \<Rightarrow> readDeadline (fst s))"
  by (cases s; cases x)
     (simp_all add: eval_defs split: prod.splits)

lemma step_writeDeadline:
  "writeDeadline (fst (snd (step x s))) =
     (case x of OpWithWriteDeadline d \<Rightarrow> d | _ \<Rightarrow> writeDeadline (fst s))"
  by (cases s; cases x)
     (simp_all add: eval_defs split: prod.splits)

lemma run_nonnegative:
  assumes "\<forall>x\<in>set ops. \<not> negativeBuilder x"
    and "0 \<le> sint (readDeadline (fst s))" and "0 \<le> sint (writeDeadline (fst s))"
  shows "0 \<le> sint (readDeadline (fst (snd (run ops s)))) \<and>
         0 \<le> sint (writeDeadline (fst (snd (run ops s))))"
  using assms
proof (induction ops arbitrary: s)
  case Nil
  then show ?case by simp
next
  case (Cons x xs)
  have "0 \<le> sint (readDeadline (fst (snd (step x s))))"
    using Cons.prems by (auto simp: step_readDeadline split: op.splits)
  moreover have "0 \<le> sint (writeDeadline (fst (snd (step x s))))"
    using Cons.prems by (auto simp: step_writeDeadline split: op.splits)
  ultimately show ?case
    using Cons.IH [of "snd (step x s)"] Cons.prems(1)
    by (simp add: snd_run_Cons del: run.simps)
qed

lemma nonneg_zero_or_positive: "0 \<le> sint (d :: Duration) \<longleftrightarrow> d = 0 \<or> 0 < sint d"
  by (auto simp: order_le_less signed_eq_0_iff)

subsection \<open>One read or write: the clock and the pushes\<close>

lemma step_io_clock:
  assumes "isIO x"
  shows "clock (snd (snd (step x s))) = clock (snd s) \<and>
         ticks (snd s) \<le> ticks (snd (snd (step x s))) \<and>
         ticks (snd (snd (step x s))) \<le> Suc (ticks (snd s))"
  using assms
  by (cases s; cases x)
     (simp_all add: Read_def Write_def prim_defs setReadDeadline_eq setWriteDeadline_eq)

lemma step_io_read:
  assumes "isIO x"
  shows "(readSetAt (fst (snd (step x s))) = readSetAt (fst s) \<and>
          readPushes (snd (snd (step x s))) = readPushes (snd s)) \<or>
         (250000000 < clock (snd s) (ticks (snd s)) - readSetAt (fst s) \<and>
          readSetAt (fst (snd (step x s))) = clock (snd s) (ticks (snd s)) \<and>
          ticks (snd (snd (step x s))) = Suc (ticks (snd s)) \<and>
          readPushes (snd (snd (step x s))) = Suc (readPushes (snd s)))"
  using assms
  by (cases s; cases x)
     (simp_all add: Read_def Write_def prim_defs setReadDeadline_eq setWriteDeadline_eq
        readPushes_def)

lemma step_io_write:
  assumes "isIO x"
  shows "(writeSetAt (fst (snd (step x s))) = writeSetAt (fst s) \<and>
          writePushes (snd (snd (step x s))) = writePushes (snd s)) \<or>
         (250000000 < clock (snd s) (ticks (snd s)) - writeSetAt (fst s) \<and>
          writeSetAt (fst (snd (step x s))) = clock (snd s) (ticks (snd s)) \<and>
          ticks (snd (snd (step x s))) = Suc (ticks (snd s)) \<and>
          writePushes (snd (snd (step x s))) = Suc (writePushes (snd s)))"
  using assms
  by (cases s; cases x)
     (simp_all add: Read_def Write_def prim_defs setReadDeadline_eq setWriteDeadline_eq
        writePushes_def)

subsection \<open>Runs of reads and writes inside one update interval\<close>

text \<open>
  If every coming reading of the clock is within the update interval of the last recorded
  read push, no read deadline is pushed.
\<close>

lemma run_io_no_read_push:
  assumes "\<forall>x\<in>set ops. isIO x"
    and "\<forall>k. ticks (snd s) \<le> k \<and> k < ticks (snd s) + length ops \<longrightarrow>
             clock (snd s) k - readSetAt (fst s) \<le> 250000000"
  shows "readPushes (snd (snd (run ops s))) = readPushes (snd s)"
  using assms
proof (induction ops arbitrary: s)
  case Nil
  then show ?case by simp
next
  case (Cons x xs)
  let ?s = "snd (step x s)"
  have io: "isIO x" and ios: "\<forall>y\<in>set xs. isIO y"
    using Cons.prems(1) by simp_all
  have "clock (snd s) (ticks (snd s)) - readSetAt (fst s) \<le> 250000000"
    using Cons.prems(2) by simp
  with step_io_read [OF io, of s]
  have same: "readSetAt (fst ?s) = readSetAt (fst s)" "readPushes (snd ?s) = readPushes (snd s)"
    by auto
  have "\<forall>k. ticks (snd ?s) \<le> k \<and> k < ticks (snd ?s) + length xs \<longrightarrow>
          clock (snd ?s) k - readSetAt (fst ?s) \<le> 250000000"
    using step_io_clock [OF io, of s] Cons.prems(2) same(1) by auto
  from Cons.IH [OF ios this] same(2) show ?case
    by (simp add: snd_run_Cons del: run.simps)
qed

lemma run_io_no_write_push:
  assumes "\<forall>x\<in>set ops. isIO x"
    and "\<forall>k. ticks (snd s) \<le> k \<and> k < ticks (snd s) + length ops \<longrightarrow>
             clock (snd s) k - writeSetAt (fst s) \<le> 250000000"
  shows "writePushes (snd (snd (run ops s))) = writePushes (snd s)"
  using assms
proof (induction ops arbitrary: s)
  case Nil
  then show ?case by simp
next
  case (Cons x xs)
  let ?s = "snd (step x s)"
  have io: "isIO x" and ios: "\<forall>y\<in>set xs. isIO y"
    using Cons.prems(1) by simp_all
  have "clock (snd s) (ticks (snd s)) - writeSetAt (fst s) \<le> 250000000"
    using Cons.prems(2) by simp
  with step_io_write [OF io, of s]
  have same: "writeSetAt (fst ?s) = writeSetAt (fst s)"
    "writePushes (snd ?s) = writePushes (snd s)"
    by auto
  have "\<forall>k. ticks (snd ?s) \<le> k \<and> k < ticks (snd ?s) + length xs \<longrightarrow>
          clock (snd ?s) k - writeSetAt (fst ?s) \<le> 250000000"
    using step_io_clock [OF io, of s] Cons.prems(2) same(1) by auto
  from Cons.IH [OF ios this] same(2) show ?case
    by (simp add: snd_run_Cons del: run.simps)
qed

text \<open>
  If the coming readings of the clock are pairwise within the update interval, a push
  makes every later reading fall within the interval of that push: one push at most.
\<close>

lemma run_io_read_push_once:
  assumes "\<forall>x\<in>set ops. isIO x"
    and "\<forall>i j. ticks (snd s) \<le> i \<and> i < ticks (snd s) + length ops \<and>
               ticks (snd s) \<le> j \<and> j < ticks (snd s) + length ops \<longrightarrow>
               clock (snd s) j - clock (snd s) i \<le> 250000000"
  shows "readPushes (snd (snd (run ops s))) \<le> Suc (readPushes (snd s))"
  using assms
proof (induction ops arbitrary: s)
  case Nil
  then show ?case by simp
next
  case (Cons x xs)
  let ?s = "snd (step x s)"
  have io: "isIO x" and ios: "\<forall>y\<in>set xs. isIO y"
    using Cons.prems(1) by simp_all
  note clk = step_io_clock [OF io, of s]
  consider
    (quiet) "readSetAt (fst ?s) = readSetAt (fst s)" "readPushes (snd ?s) = readPushes (snd s)"
  | (push) "readSetAt (fst ?s) = clock (snd s) (ticks (snd s))"
      "ticks (snd ?s) = Suc (ticks (snd s))" "readPushes (snd ?s) = Suc (readPushes (snd s))"
    using step_io_read [OF io, of s] by auto
  then show ?case
  proof cases
    case quiet
    have "\<forall>i j. ticks (snd ?s) \<le> i \<and> i < ticks (snd ?s) + length xs \<and>
               ticks (snd ?s) \<le> j \<and> j < ticks (snd ?s) + length xs \<longrightarrow>
               clock (snd ?s) j - clock (snd ?s) i \<le> 250000000"
      using clk Cons.prems(2) by auto
    from Cons.IH [OF ios this] quiet(2) show ?thesis
      by (simp add: snd_run_Cons del: run.simps)
  next
    case push
    have "\<forall>k. ticks (snd ?s) \<le> k \<and> k < ticks (snd ?s) + length xs \<longrightarrow>
            clock (snd ?s) k - readSetAt (fst ?s) \<le> 250000000"
      using clk Cons.prems(2) push(1,2) by auto
    from run_io_no_read_push [OF ios this] push(3) show ?thesis
      by (simp add: snd_run_Cons del: run.simps)
  qed
qed

lemma run_io_write_push_once:
  assumes "\<forall>x\<in>set ops. isIO x"
    and "\<forall>i j. ticks (snd s) \<le> i \<and> i < ticks (snd s) + length ops \<and>
               ticks (snd s) \<le> j \<and> j < ticks (snd s) + length ops \<longrightarrow>
               clock (snd s) j - clock (snd s) i \<le> 250000000"
  shows "writePushes (snd (snd (run ops s))) \<le> Suc (writePushes (snd s))"
  using assms
proof (induction ops arbitrary: s)
  case Nil
  then show ?case by simp
next
  case (Cons x xs)
  let ?s = "snd (step x s)"
  have io: "isIO x" and ios: "\<forall>y\<in>set xs. isIO y"
    using Cons.prems(1) by simp_all
  note clk = step_io_clock [OF io, of s]
  consider
    (quiet) "writeSetAt (fst ?s) = writeSetAt (fst s)"
      "writePushes (snd ?s) = writePushes (snd s)"
  | (push) "writeSetAt (fst ?s) = clock (snd s) (ticks (snd s))"
      "ticks (snd ?s) = Suc (ticks (snd s))" "writePushes (snd ?s) = Suc (writePushes (snd s))"
    using step_io_write [OF io, of s] by auto
  then show ?case
  proof cases
    case quiet
    have "\<forall>i j. ticks (snd ?s) \<le> i \<and> i < ticks (snd ?s) + length xs \<and>
               ticks (snd ?s) \<le> j \<and> j < ticks (snd ?s) + length xs \<longrightarrow>
               clock (snd ?s) j - clock (snd ?s) i \<le> 250000000"
      using clk Cons.prems(2) by auto
    from Cons.IH [OF ios this] quiet(2) show ?thesis
      by (simp add: snd_run_Cons del: run.simps)
  next
    case push
    have "\<forall>k. ticks (snd ?s) \<le> k \<and> k < ticks (snd ?s) + length xs \<longrightarrow>
            clock (snd ?s) k - writeSetAt (fst ?s) \<le> 250000000"
      using clk Cons.prems(2) push(1,2) by auto
    from run_io_no_write_push [OF ios this] push(3) show ?thesis
      by (simp add: snd_run_Cons del: run.simps)
  qed
qed

text \<open>
  A read or a write calls no inner deadline setter but the push of its own direction:
  the setter calls it adds are the read pushes and the write pushes it adds, a write adds
  no read push and a read no write push.
\<close>

lemma step_io_sets:
  assumes "isIO x"
  shows "deadlineSets (snd (snd (step x s))) + readPushes (snd s) + writePushes (snd s) =
         deadlineSets (snd s) + readPushes (snd (snd (step x s))) +
           writePushes (snd (snd (step x s)))"
  using assms
  by (cases s; cases x)
     (simp_all add: Read_def Write_def prim_defs setReadDeadline_eq setWriteDeadline_eq
        readPushes_def writePushes_def deadlineSets_def)

lemma step_io_read_le:
  assumes "isIO x"
  shows "readPushes (snd (snd (step x s))) \<le>
         readPushes (snd s) + length (filter isReadOp [x])"
  using assms
  by (cases s; cases x)
     (simp_all add: Read_def Write_def prim_defs setReadDeadline_eq setWriteDeadline_eq
        readPushes_def)

lemma step_io_write_le:
  assumes "isIO x"
  shows "writePushes (snd (snd (step x s))) \<le>
         writePushes (snd s) + length (filter isWriteOp [x])"
  using assms
  by (cases s; cases x)
     (simp_all add: Read_def Write_def prim_defs setReadDeadline_eq setWriteDeadline_eq
        writePushes_def)

lemma run_io_sets:
  assumes "\<forall>x\<in>set ops. isIO x"
  shows "deadlineSets (snd (snd (run ops s))) + readPushes (snd s) + writePushes (snd s) =
         deadlineSets (snd s) + readPushes (snd (snd (run ops s))) +
           writePushes (snd (snd (run ops s)))"
  using assms
proof (induction ops arbitrary: s)
  case Nil
  then show ?case by simp
next
  case (Cons x xs)
  have io: "isIO x" and ios: "\<forall>y\<in>set xs. isIO y"
    using Cons.prems by simp_all
  have tl: "snd (run (x # xs) s) = snd (run xs (snd (step x s)))"
    by (rule snd_run_Cons)
  from step_io_sets [OF io, of s] Cons.IH [OF ios, of "snd (step x s)"]
  show ?case unfolding tl by linarith
qed

lemma run_io_read_le:
  assumes "\<forall>x\<in>set ops. isIO x"
  shows "readPushes (snd (snd (run ops s))) \<le> readPushes (snd s) + length (filter isReadOp ops)"
  using assms
proof (induction ops arbitrary: s)
  case Nil
  then show ?case by simp
next
  case (Cons x xs)
  have io: "isIO x" and ios: "\<forall>y\<in>set xs. isIO y"
    using Cons.prems by simp_all
  have tl: "snd (run (x # xs) s) = snd (run xs (snd (step x s)))"
    by (rule snd_run_Cons)
  have len: "length (filter isReadOp (x # xs)) =
             length (filter isReadOp [x]) + length (filter isReadOp xs)"
    by simp
  from step_io_read_le [OF io, of s] Cons.IH [OF ios, of "snd (step x s)"]
  show ?case unfolding tl len by linarith
qed

lemma run_io_write_le:
  assumes "\<forall>x\<in>set ops. isIO x"
  shows "writePushes (snd (snd (run ops s))) \<le>
         writePushes (snd s) + length (filter isWriteOp ops)"
  using assms
proof (induction ops arbitrary: s)
  case Nil
  then show ?case by simp
next
  case (Cons x xs)
  have io: "isIO x" and ios: "\<forall>y\<in>set xs. isIO y"
    using Cons.prems by simp_all
  have tl: "snd (run (x # xs) s) = snd (run xs (snd (step x s)))"
    by (rule snd_run_Cons)
  have len: "length (filter isWriteOp (x # xs)) =
             length (filter isWriteOp [x]) + length (filter isWriteOp xs)"
    by simp
  from step_io_write_le [OF io, of s] Cons.IH [OF ios, of "snd (step x s)"]
  show ?case unfolding tl len by linarith
qed

lemma clock_in_readings: "ticks w \<le> k \<Longrightarrow> k < ticks w + n \<Longrightarrow> clock w k \<in> set (readings w n)"
  by (simp add: readings_def)

text \<open>Pushes are only added, and a run of reads has no write, a run of writes no read.\<close>

lemma run_io_read_ge:
  assumes "\<forall>x\<in>set ops. isIO x"
  shows "readPushes (snd s) \<le> readPushes (snd (snd (run ops s)))"
  using assms
proof (induction ops arbitrary: s)
  case Nil
  then show ?case by simp
next
  case (Cons x xs)
  have io: "isIO x" and ios: "\<forall>y\<in>set xs. isIO y"
    using Cons.prems by simp_all
  have tl: "snd (run (x # xs) s) = snd (run xs (snd (step x s)))"
    by (rule snd_run_Cons)
  have "readPushes (snd s) \<le> readPushes (snd (snd (step x s)))"
    using step_io_read [OF io, of s] by auto
  with Cons.IH [OF ios, of "snd (step x s)"] show ?case
    unfolding tl by linarith
qed

lemma run_io_write_ge:
  assumes "\<forall>x\<in>set ops. isIO x"
  shows "writePushes (snd s) \<le> writePushes (snd (snd (run ops s)))"
  using assms
proof (induction ops arbitrary: s)
  case Nil
  then show ?case by simp
next
  case (Cons x xs)
  have io: "isIO x" and ios: "\<forall>y\<in>set xs. isIO y"
    using Cons.prems by simp_all
  have tl: "snd (run (x # xs) s) = snd (run xs (snd (step x s)))"
    by (rule snd_run_Cons)
  have "writePushes (snd s) \<le> writePushes (snd (snd (step x s)))"
    using step_io_write [OF io, of s] by auto
  with Cons.IH [OF ios, of "snd (step x s)"] show ?case
    unfolding tl by linarith
qed

lemma reads_no_write: "\<forall>x\<in>set ops. isReadOp x \<Longrightarrow> filter isWriteOp ops = []"
proof (induction ops)
  case Nil
  then show ?case by simp
next
  case (Cons x xs)
  then show ?case by (cases x) simp_all
qed

lemma writes_no_read: "\<forall>x\<in>set ops. isWriteOp x \<Longrightarrow> filter isReadOp ops = []"
proof (induction ops)
  case Nil
  then show ?case by simp
next
  case (Cons x xs)
  then show ?case by (cases x) simp_all
qed

section \<open>The coalesced deadline push (claim C1)\<close>

text \<open>
  Where the sum \<^verbatim>\<open>c.readDeadline + updateInterval\<close> fits a \<^verbatim>\<open>Duration\<close>, the push is as
  described: with a positive timeout, the flag clear and more than the update interval
  elapsed since the last recorded push, the inner stream gets the deadline
  \<open>now + timeout + updateInterval\<close> and \<open>now\<close> is recorded; otherwise nothing is pushed.
\<close>

lemma setReadDeadline_push:
  assumes "sint (readDeadline c) \<le> sint maxDuration - sint updateInterval"
  shows "setReadDeadline (c, w) =
     (if 0 < sint (readDeadline c) \<and> \<not> abortReads c then
        (if sint updateInterval < clock w (ticks w) - readSetAt c then
           (c\<lparr>readSetAt := clock w (ticks w)\<rparr>,
            emit (Inner (CSetReadDeadline
                    (clock w (ticks w) + sint (readDeadline c) + sint updateInterval)))
              (snd (time_Now w)))
         else (c, snd (time_Now w)))
      else (c, w))"
  using assms
  by (simp add: setReadDeadline_eq sint_add_updateInterval sint_updateInterval
      sint_maxDuration prim_defs)

lemma setWriteDeadline_push:
  assumes "sint (writeDeadline c) \<le> sint maxDuration - sint updateInterval"
  shows "setWriteDeadline (c, w) =
     (if 0 < sint (writeDeadline c) \<and> \<not> abortWrites c then
        (if sint updateInterval < clock w (ticks w) - writeSetAt c then
           (c\<lparr>writeSetAt := clock w (ticks w)\<rparr>,
            emit (Inner (CSetWriteDeadline
                    (clock w (ticks w) + sint (writeDeadline c) + sint updateInterval)))
              (snd (time_Now w)))
         else (c, snd (time_Now w)))
      else (c, w))"
  using assms
  by (simp add: setWriteDeadline_eq sint_add_updateInterval sint_updateInterval
      sint_maxDuration prim_defs)

text \<open>
  The timing scenario, with a timeout of 100 ms and the clock reading \<open>T0\<close>,
  \<open>T0 + 50 ms\<close> and \<open>T0 + 260 ms\<close>: the first read pushes \<open>T0 + 350 ms\<close>, the second
  pushes nothing, the third pushes \<open>T0 + 610 ms\<close>.
\<close>

lemma timing_scenario:
  "events (snd (snd (run [OpWithReadDeadline (100 * Millisecond), OpRead [], OpRead [], OpRead []]
                      (New okConn, worldAt [0, 50000000, 260000000])))) =
     [Inner (CSetReadDeadline (T0 + 350000000)), Inner (CRead []),
      Inner (CRead []),
      Inner (CSetReadDeadline (T0 + 610000000)), Inner (CRead [])]"
  by (simp add: eval_defs Millisecond_def updateInterval_def)

text \<open>
  Claim C1: on every coalesced push with a strictly positive timeout, the flag clear and
  more than 250 ms elapsed since the last recorded push, the wrapper pushes the absolute
  deadline \<open>now + timeout + updateInterval\<close> to the inner stream and records \<open>now\<close>.

  The source adds the two durations as \<^verbatim>\<open>int64\<close>. With the largest duration as the
  read timeout (strictly positive), a fresh wrapper and the clock at \<open>T0\<close>, the sum
  wraps around: the read pushes the deadline \<open>T0 - 9223372036604775809\<close>, an instant
  before \<open>T0\<close>, and not \<open>T0 + 9223372036854775807 + 250000000\<close>.
\<close>

theorem setReadDeadline_overflow:
  "0 < sint maxDuration \<and> \<not> abortReads (New okConn) \<and>
   sint updateInterval < clock (worldAt [0]) 0 - readSetAt (New okConn) \<and>
   run [OpWithReadDeadline maxDuration, OpRead [1, 2]] (New okConn, worldAt [0]) =
     ([RConn, RIO (2, None)],
      (New okConn\<lparr>readDeadline := maxDuration, readSetAt := T0\<rparr>,
       \<lparr>events = [Inner (CSetReadDeadline (T0 - 9223372036604775809)), Inner (CRead [1, 2])],
        clock = (\<lambda>n. T0 + offset [0] n), ticks = 1\<rparr>))"
  by (simp add: eval_defs maxDuration_def updateInterval_def Millisecond_def)

section \<open>At most one push per update interval (claim C2)\<close>

text \<open>
  Claim C2: for every sequence of Read and Write calls in a window no longer than the
  update interval (the readings of the clock that the calls can take differ pairwise by at
  most 250 ms), each direction pushes at most one new deadline to the inner stream, and
  the calls make no other inner deadline-set call: the calls of the inner stream's three
  deadline setters that the run adds are exactly its read pushes and its write pushes,
  reads add no write push and writes no read push. So a sequence of Reads (of Writes) in
  such a window makes at most one inner deadline-set call in all; and when the readings
  all lie within the update interval of the direction's last recorded push, it makes
  none.
\<close>

theorem coalesced_push_at_most_once:
  assumes "\<forall>x\<in>set ops. isIO x"
  shows "deadlineSets (snd (snd (run ops (c, w)))) + readPushes w + writePushes w =
           deadlineSets w + readPushes (snd (snd (run ops (c, w)))) +
             writePushes (snd (snd (run ops (c, w)))) \<and>
         readPushes (snd (snd (run ops (c, w)))) \<le> readPushes w + length (filter isReadOp ops) \<and>
         writePushes (snd (snd (run ops (c, w)))) \<le> writePushes w + length (filter isWriteOp ops) \<and>
         ((\<forall>a\<in>set (readings w (length ops)). \<forall>b\<in>set (readings w (length ops)).
             b - a \<le> sint updateInterval) \<longrightarrow>
          readPushes (snd (snd (run ops (c, w)))) \<le> Suc (readPushes w) \<and>
          writePushes (snd (snd (run ops (c, w)))) \<le> Suc (writePushes w) \<and>
          deadlineSets (snd (snd (run ops (c, w)))) \<le> deadlineSets w + 2 \<and>
          ((\<forall>x\<in>set ops. isReadOp x) \<longrightarrow>
             deadlineSets (snd (snd (run ops (c, w)))) \<le> Suc (deadlineSets w)) \<and>
          ((\<forall>x\<in>set ops. isWriteOp x) \<longrightarrow>
             deadlineSets (snd (snd (run ops (c, w)))) \<le> Suc (deadlineSets w))) \<and>
         ((\<forall>a\<in>set (readings w (length ops)). a - readSetAt c \<le> sint updateInterval) \<longrightarrow>
          readPushes (snd (snd (run ops (c, w)))) = readPushes w \<and>
          ((\<forall>x\<in>set ops. isReadOp x) \<longrightarrow>
             deadlineSets (snd (snd (run ops (c, w)))) = deadlineSets w)) \<and>
         ((\<forall>a\<in>set (readings w (length ops)). a - writeSetAt c \<le> sint updateInterval) \<longrightarrow>
          writePushes (snd (snd (run ops (c, w)))) = writePushes w \<and>
          ((\<forall>x\<in>set ops. isWriteOp x) \<longrightarrow>
             deadlineSets (snd (snd (run ops (c, w)))) = deadlineSets w))"
proof -
  let ?w = "snd (snd (run ops (c, w)))"
  have sets: "deadlineSets ?w + readPushes w + writePushes w =
              deadlineSets w + readPushes ?w + writePushes ?w"
    using run_io_sets [OF assms, of "(c, w)"] by simp
  have rle: "readPushes ?w \<le> readPushes w + length (filter isReadOp ops)"
    using run_io_read_le [OF assms, of "(c, w)"] by simp
  have wle: "writePushes ?w \<le> writePushes w + length (filter isWriteOp ops)"
    using run_io_write_le [OF assms, of "(c, w)"] by simp
  have rge: "readPushes w \<le> readPushes ?w"
    using run_io_read_ge [OF assms, of "(c, w)"] by simp
  have wge: "writePushes w \<le> writePushes ?w"
    using run_io_write_ge [OF assms, of "(c, w)"] by simp
  have only_reads: "writePushes ?w = writePushes w" if "\<forall>x\<in>set ops. isReadOp x"
    using wle wge reads_no_write [OF that] by simp
  have only_writes: "readPushes ?w = readPushes w" if "\<forall>x\<in>set ops. isWriteOp x"
    using rle rge writes_no_read [OF that] by simp
  have window:
    "readPushes ?w \<le> Suc (readPushes w) \<and> writePushes ?w \<le> Suc (writePushes w) \<and>
     deadlineSets ?w \<le> deadlineSets w + 2 \<and>
     ((\<forall>x\<in>set ops. isReadOp x) \<longrightarrow> deadlineSets ?w \<le> Suc (deadlineSets w)) \<and>
     ((\<forall>x\<in>set ops. isWriteOp x) \<longrightarrow> deadlineSets ?w \<le> Suc (deadlineSets w))"
    if win: "\<forall>a\<in>set (readings w (length ops)). \<forall>b\<in>set (readings w (length ops)).
               b - a \<le> sint updateInterval"
  proof -
    have pair: "\<forall>i j. ticks (snd (c, w)) \<le> i \<and> i < ticks (snd (c, w)) + length ops \<and>
                 ticks (snd (c, w)) \<le> j \<and> j < ticks (snd (c, w)) + length ops \<longrightarrow>
                 clock (snd (c, w)) j - clock (snd (c, w)) i \<le> 250000000"
      using win by (simp add: sint_updateInterval) (blast intro: clock_in_readings)
    have r1: "readPushes ?w \<le> Suc (readPushes w)"
      using run_io_read_push_once [OF assms pair] by simp
    have w1: "writePushes ?w \<le> Suc (writePushes w)"
      using run_io_write_push_once [OF assms pair] by simp
    have "deadlineSets ?w \<le> deadlineSets w + 2"
      using sets r1 w1 by linarith
    moreover have "deadlineSets ?w \<le> Suc (deadlineSets w)" if "\<forall>x\<in>set ops. isReadOp x"
      using sets r1 only_reads [OF that] by linarith
    moreover have "deadlineSets ?w \<le> Suc (deadlineSets w)" if "\<forall>x\<in>set ops. isWriteOp x"
      using sets w1 only_writes [OF that] by linarith
    ultimately show ?thesis
      using r1 w1 by blast
  qed
  have quiet_read:
    "readPushes ?w = readPushes w \<and>
     ((\<forall>x\<in>set ops. isReadOp x) \<longrightarrow> deadlineSets ?w = deadlineSets w)"
    if near: "\<forall>a\<in>set (readings w (length ops)). a - readSetAt c \<le> sint updateInterval"
  proof -
    have "\<forall>k. ticks (snd (c, w)) \<le> k \<and> k < ticks (snd (c, w)) + length ops \<longrightarrow>
             clock (snd (c, w)) k - readSetAt (fst (c, w)) \<le> 250000000"
      using near by (simp add: sint_updateInterval) (blast intro: clock_in_readings)
    from run_io_no_read_push [OF assms this]
    have r0: "readPushes ?w = readPushes w" by simp
    moreover have "deadlineSets ?w = deadlineSets w" if "\<forall>x\<in>set ops. isReadOp x"
      using sets r0 only_reads [OF that] by linarith
    ultimately show ?thesis by blast
  qed
  have quiet_write:
    "writePushes ?w = writePushes w \<and>
     ((\<forall>x\<in>set ops. isWriteOp x) \<longrightarrow> deadlineSets ?w = deadlineSets w)"
    if near: "\<forall>a\<in>set (readings w (length ops)). a - writeSetAt c \<le> sint updateInterval"
  proof -
    have "\<forall>k. ticks (snd (c, w)) \<le> k \<and> k < ticks (snd (c, w)) + length ops \<longrightarrow>
             clock (snd (c, w)) k - writeSetAt (fst (c, w)) \<le> 250000000"
      using near by (simp add: sint_updateInterval) (blast intro: clock_in_readings)
    from run_io_no_write_push [OF assms this]
    have w0: "writePushes ?w = writePushes w" by simp
    moreover have "deadlineSets ?w = deadlineSets w" if "\<forall>x\<in>set ops. isWriteOp x"
      using sets w0 only_writes [OF that] by linarith
    ultimately show ?thesis by blast
  qed
  show ?thesis
    using sets rle wle window quiet_read quiet_write by blast
qed

text \<open>
  Five calls within 250 ms on a fresh wrapper with both timeouts at 100 ms: one read
  push and one write push, two inner deadline-set calls in all. Three Reads (three
  Writes) within 250 ms on such a wrapper: one inner deadline-set call. The same Reads
  (Writes) once a push is recorded at \<open>T0\<close>: none.
\<close>

theorem coalesced_push_at_most_once_witness:
  "list_all isIO [OpRead [1], OpWrite [2], OpRead [3], OpWrite [4], OpRead [5]] \<and>
   list_all (\<lambda>a. list_all (\<lambda>b. b - a \<le> sint updateInterval)
       (readings (worldAt [0, 50000000, 100000000, 200000000, 250000000]) 5))
     (readings (worldAt [0, 50000000, 100000000, 200000000, 250000000]) 5) \<and>
   readPushes (snd (snd (run [OpRead [1], OpWrite [2], OpRead [3], OpWrite [4], OpRead [5]]
     (WithWriteDeadline (100 * Millisecond) (WithReadDeadline (100 * Millisecond) (New okConn)),
      worldAt [0, 50000000, 100000000, 200000000, 250000000])))) = 1 \<and>
   writePushes (snd (snd (run [OpRead [1], OpWrite [2], OpRead [3], OpWrite [4], OpRead [5]]
     (WithWriteDeadline (100 * Millisecond) (WithReadDeadline (100 * Millisecond) (New okConn)),
      worldAt [0, 50000000, 100000000, 200000000, 250000000])))) = 1 \<and>
   deadlineSets (snd (snd (run [OpRead [1], OpWrite [2], OpRead [3], OpWrite [4], OpRead [5]]
     (WithWriteDeadline (100 * Millisecond) (WithReadDeadline (100 * Millisecond) (New okConn)),
      worldAt [0, 50000000, 100000000, 200000000, 250000000])))) = 2 \<and>
   list_all isIO [OpRead [1], OpRead [2], OpRead [3]] \<and>
   list_all isReadOp [OpRead [1], OpRead [2], OpRead [3]] \<and>
   list_all (\<lambda>a. list_all (\<lambda>b. b - a \<le> sint updateInterval)
       (readings (worldAt [0, 50000000, 250000000]) 3))
     (readings (worldAt [0, 50000000, 250000000]) 3) \<and>
   deadlineSets (snd (snd (run [OpRead [1], OpRead [2], OpRead [3]]
     (WithWriteDeadline (100 * Millisecond) (WithReadDeadline (100 * Millisecond) (New okConn)),
      worldAt [0, 50000000, 250000000])))) = 1 \<and>
   list_all
     (\<lambda>a. a - readSetAt ((WithReadDeadline (100 * Millisecond) (New okConn))\<lparr>readSetAt := T0\<rparr>)
        \<le> sint updateInterval)
     (readings (worldAt [0, 50000000, 250000000]) 3) \<and>
   deadlineSets (snd (snd (run [OpRead [1], OpRead [2], OpRead [3]]
     ((WithReadDeadline (100 * Millisecond) (New okConn))\<lparr>readSetAt := T0\<rparr>,
      worldAt [0, 50000000, 250000000])))) = 0 \<and>
   list_all isIO [OpWrite [1], OpWrite [2], OpWrite [3]] \<and>
   list_all isWriteOp [OpWrite [1], OpWrite [2], OpWrite [3]] \<and>
   deadlineSets (snd (snd (run [OpWrite [1], OpWrite [2], OpWrite [3]]
     (WithWriteDeadline (100 * Millisecond) (WithReadDeadline (100 * Millisecond) (New okConn)),
      worldAt [0, 50000000, 250000000])))) = 1 \<and>
   list_all
     (\<lambda>a. a - writeSetAt ((WithWriteDeadline (100 * Millisecond) (New okConn))\<lparr>writeSetAt := T0\<rparr>)
        \<le> sint updateInterval)
     (readings (worldAt [0, 50000000, 250000000]) 3) \<and>
   deadlineSets (snd (snd (run [OpWrite [1], OpWrite [2], OpWrite [3]]
     ((WithWriteDeadline (100 * Millisecond) (New okConn))\<lparr>writeSetAt := T0\<rparr>,
      worldAt [0, 50000000, 250000000])))) = 0"
  using
    coalesced_push_at_most_once
      [where ops = "[OpRead [1], OpWrite [2], OpRead [3], OpWrite [4], OpRead [5]]"
         and w = "worldAt [0, 50000000, 100000000, 200000000, 250000000]"
         and c = "WithWriteDeadline (100 * Millisecond)
                    (WithReadDeadline (100 * Millisecond) (New okConn))"]
    coalesced_push_at_most_once
      [where ops = "[OpRead [1], OpRead [2], OpRead [3]]"
         and w = "worldAt [0, 50000000, 250000000]"
         and c = "WithWriteDeadline (100 * Millisecond)
                    (WithReadDeadline (100 * Millisecond) (New okConn))"]
    coalesced_push_at_most_once
      [where ops = "[OpRead [1], OpRead [2], OpRead [3]]"
         and w = "worldAt [0, 50000000, 250000000]"
         and c = "(WithReadDeadline (100 * Millisecond) (New okConn))\<lparr>readSetAt := T0\<rparr>"]
    coalesced_push_at_most_once
      [where ops = "[OpWrite [1], OpWrite [2], OpWrite [3]]"
         and w = "worldAt [0, 50000000, 250000000]"
         and c = "WithWriteDeadline (100 * Millisecond)
                    (WithReadDeadline (100 * Millisecond) (New okConn))"]
    coalesced_push_at_most_once
      [where ops = "[OpWrite [1], OpWrite [2], OpWrite [3]]"
         and w = "worldAt [0, 50000000, 250000000]"
         and c = "(WithWriteDeadline (100 * Millisecond) (New okConn))\<lparr>writeSetAt := T0\<rparr>"]
  by (simp add: eval_defs Millisecond_def updateInterval_def upt_rec [of 0] upt_rec [of "Suc _"]
      eval_nat_numeral del: set_upt)

section \<open>The combined deadline setter (claims C3 and C4)\<close>

text \<open>
  Claim C3: \<^verbatim>\<open>SetDeadline\<close> with the zero time clears the inner deadline of each
  direction whose timeout is zero, clears both abort flags, and reports the first error
  met (the read-side error when both clears fail).

  On a wrapper without timeouts whose flags were set by a deadline in the past, over an
  inner stream on which both clears fail, the source returns the write-side error and
  leaves both flags set: no store to a flag follows the two clears.
\<close>

theorem SetDeadline_zero_write_error_wins:
  "run [OpSetDeadline (T0 - 1), OpSetDeadline 0] (New failConn, worldAt [0]) =
     ([RErr (Some (ConnError ''set deadline'')), RErr (Some (ConnError ''set write deadline''))],
      (New failConn\<lparr>abortReads := True, abortWrites := True\<rparr>,
       \<lparr>events = [StoreAbortReads True, StoreAbortWrites True, Inner (CSetDeadline (T0 - 1)),
                  Inner (CSetReadDeadline 0), Inner (CSetWriteDeadline 0)],
        clock = (\<lambda>n. T0 + offset [0] n), ticks = 1\<rparr>))"
  by (simp add: eval_defs)

text \<open>
  Claim C4: \<^verbatim>\<open>SetDeadline(t)\<close> with \<open>t\<close> strictly in the past (and not the zero time,
  which is the case of C3) stores true to both abort flags, then forwards \<open>t\<close> to the
  inner stream's combined setter and returns its error; the next Read and the next Write
  fail with the deadline-exceeded error and leave the wrapper and the world as they are,
  so they make no inner call. Nothing is assumed about the configured timeouts.
\<close>

theorem SetDeadline_past_aborts:
  assumes "\<not> Time_IsZero t" and "t < clock w (ticks w)"
  shows "case SetDeadline t (c, w) of (err, c', w') \<Rightarrow>
           c' = c\<lparr>abortReads := True, abortWrites := True\<rparr> \<and>
           events w' =
             events w @ [StoreAbortReads True, StoreAbortWrites True, Inner (CSetDeadline t)] \<and>
           err = connSetDeadline (Conn c)
                   (emit (StoreAbortWrites True) (emit (StoreAbortReads True) (snd (time_Now w)))) t \<and>
           Read b (c', w') = ((0, Some DeadlineExceeded), (c', w')) \<and>
           Write b (c', w') = ((0, Some DeadlineExceeded), (c', w'))"
  using assms
  by (simp add: SetDeadline_def prim_defs Time_Sub_negative Read_def Write_def)

text \<open>A wrapper with no timeout configured, and a deadline one nanosecond in the past.\<close>

theorem SetDeadline_past_aborts_witness:
  "\<not> Time_IsZero (T0 - 1) \<and> T0 - 1 < clock (worldAt [0]) (ticks (worldAt [0])) \<and>
   readDeadline (New failConn) = 0 \<and> writeDeadline (New failConn) = 0 \<and>
   (case SetDeadline (T0 - 1) (New failConn, worldAt [0]) of (err, c', w') \<Rightarrow>
      abortReads c' \<and> abortWrites c' \<and>
      events w' = [StoreAbortReads True, StoreAbortWrites True, Inner (CSetDeadline (T0 - 1))] \<and>
      err = Some (ConnError ''set deadline'') \<and>
      Read [1, 2] (c', w') = ((0, Some DeadlineExceeded), (c', w')) \<and>
      Write [1, 2] (c', w') = ((0, Some DeadlineExceeded), (c', w')))"
  using SetDeadline_past_aborts [of "T0 - 1" "worldAt [0]" "New failConn" "[1, 2]"]
  by (simp add: eval_defs)

section \<open>Close (claim C5)\<close>

text \<open>
  Claim C5: \<^verbatim>\<open>Close\<close> stores true to both abort flags, then closes the inner stream,
  once, and returns the error of that close; every Read and Write that follows returns
  the deadline-exceeded error and reaches the inner stream no more.
\<close>

theorem Close_aborts:
  "case Close (c, w) of (err, c', w') \<Rightarrow>
     c' = c\<lparr>abortReads := True, abortWrites := True\<rparr> \<and>
     events w' = events w @ [StoreAbortReads True, StoreAbortWrites True, Inner CClose] \<and>
     err = connClose (Conn c) (emit (StoreAbortWrites True) (emit (StoreAbortReads True) w)) \<and>
     ((\<forall>x\<in>set ops. isIO x) \<longrightarrow>
        run ops (c', w') = (replicate (length ops) (RIO (0, Some DeadlineExceeded)), (c', w')))"
  by (simp add: Close_def prim_defs run_io_aborted)

theorem Close_aborts_witness:
  "list_all isIO [OpRead [1], OpWrite [2, 3], OpRead []] \<and>
   (case Close (New failConn, worldAt [0]) of (err, c', w') \<Rightarrow>
     abortReads c' \<and> abortWrites c' \<and>
     events w' = [StoreAbortReads True, StoreAbortWrites True, Inner CClose] \<and>
     err = Some (ConnError ''close'') \<and>
     run [OpRead [1], OpWrite [2, 3], OpRead []] (c', w') =
       ([RIO (0, Some DeadlineExceeded), RIO (0, Some DeadlineExceeded),
         RIO (0, Some DeadlineExceeded)], (c', w')))"
  using Close_aborts [of "New failConn" "worldAt [0]" "[OpRead [1], OpWrite [2, 3], OpRead []]"]
  by (simp add: eval_defs)

section \<open>The zero time on one direction (claim C6)\<close>

text \<open>
  Claim C6: \<^verbatim>\<open>SetReadDeadline\<close> with the zero time, while a positive read timeout is
  configured, returns nil and only stores false to the read abort flag: no inner call, no
  reading of the clock, every other field as before (\<^verbatim>\<open>readSetAt\<close> too). The coalesced
  mechanism then resumes: the next Read pushes a deadline exactly if more than the update
  interval has elapsed since the recorded push. The same holds on the write side.
\<close>

theorem SetReadDeadline_zero_resumes:
  "(0 < sint (readDeadline c) \<longrightarrow>
      SetReadDeadline 0 (c, w) =
        (None, (c\<lparr>abortReads := False\<rparr>, emit (StoreAbortReads False) w)) \<and>
      readPushes (snd (snd (Read b (snd (SetReadDeadline 0 (c, w)))))) =
        (if sint updateInterval < clock w (ticks w) - readSetAt c
         then Suc (readPushes w) else readPushes w)) \<and>
   (0 < sint (writeDeadline c) \<longrightarrow>
      SetWriteDeadline 0 (c, w) =
        (None, (c\<lparr>abortWrites := False\<rparr>, emit (StoreAbortWrites False) w)) \<and>
      writePushes (snd (snd (Write b (snd (SetWriteDeadline 0 (c, w)))))) =
        (if sint updateInterval < clock w (ticks w) - writeSetAt c
         then Suc (writePushes w) else writePushes w))"
  by (auto simp: SetReadDeadline_def SetWriteDeadline_def Read_def Write_def prim_defs
      setReadDeadline_eq setWriteDeadline_eq readPushes_def writePushes_def sint_updateInterval)

text \<open>
  An aborted wrapper with both timeouts at 100 ms and pushes recorded at \<open>T0\<close>; the
  clock reads \<open>T0 + 50 ms\<close>.
\<close>

theorem SetReadDeadline_zero_resumes_witness:
  "0 < sint (readDeadline
       ((New okConn)\<lparr>readDeadline := 100 * Millisecond, writeDeadline := 100 * Millisecond,
          readSetAt := T0, writeSetAt := T0, abortReads := True, abortWrites := True\<rparr>)) \<and>
   0 < sint (writeDeadline
       ((New okConn)\<lparr>readDeadline := 100 * Millisecond, writeDeadline := 100 * Millisecond,
          readSetAt := T0, writeSetAt := T0, abortReads := True, abortWrites := True\<rparr>)) \<and>
   SetReadDeadline 0
     ((New okConn)\<lparr>readDeadline := 100 * Millisecond, writeDeadline := 100 * Millisecond,
        readSetAt := T0, writeSetAt := T0, abortReads := True, abortWrites := True\<rparr>,
      worldAt [50000000]) =
     (None,
      ((New okConn)\<lparr>readDeadline := 100 * Millisecond, writeDeadline := 100 * Millisecond,
         readSetAt := T0, writeSetAt := T0, abortReads := False, abortWrites := True\<rparr>,
       (worldAt [50000000])\<lparr>events := [StoreAbortReads False]\<rparr>)) \<and>
   SetWriteDeadline 0
     ((New okConn)\<lparr>readDeadline := 100 * Millisecond, writeDeadline := 100 * Millisecond,
        readSetAt := T0, writeSetAt := T0, abortReads := True, abortWrites := True\<rparr>,
      worldAt [50000000]) =
     (None,
      ((New okConn)\<lparr>readDeadline := 100 * Millisecond, writeDeadline := 100 * Millisecond,
         readSetAt := T0, writeSetAt := T0, abortReads := True, abortWrites := False\<rparr>,
       (worldAt [50000000])\<lparr>events := [StoreAbortWrites False]\<rparr>))"
  using SetReadDeadline_zero_resumes
    [of "(New okConn)\<lparr>readDeadline := 100 * Millisecond, writeDeadline := 100 * Millisecond,
          readSetAt := T0, writeSetAt := T0, abortReads := True, abortWrites := True\<rparr>"
        "worldAt [50000000]" "[]"]
  by (simp add: eval_defs Millisecond_def)

section \<open>Read and Write (claims C7, C8 and C10)\<close>

text \<open>
  Claim C7: a Read made while \<^verbatim>\<open>abortReads\<close> is set, and a Write made while
  \<^verbatim>\<open>abortWrites\<close> is set, returns the deadline-exceeded error and adds no event: it makes
  no call into the inner stream.
\<close>

theorem Read_abort_fails:
  "(abortReads c \<longrightarrow>
      snd (fst (Read b (c, w))) = Some DeadlineExceeded \<and>
      events (snd (snd (Read b (c, w)))) = events w) \<and>
   (abortWrites c \<longrightarrow>
      snd (fst (Write b (c, w))) = Some DeadlineExceeded \<and>
      events (snd (snd (Write b (c, w)))) = events w)"
  by (simp add: Read_def Write_def)

theorem Read_abort_fails_witness:
  "abortReads ((New okConn)\<lparr>abortReads := True, abortWrites := True\<rparr>) \<and>
   abortWrites ((New okConn)\<lparr>abortReads := True, abortWrites := True\<rparr>) \<and>
   snd (fst (Read [1, 2] ((New okConn)\<lparr>abortReads := True, abortWrites := True\<rparr>, worldAt [0])))
     = Some DeadlineExceeded \<and>
   events (snd (snd (Read [1, 2]
     ((New okConn)\<lparr>abortReads := True, abortWrites := True\<rparr>, worldAt [0])))) = [] \<and>
   snd (fst (Write [1, 2] ((New okConn)\<lparr>abortReads := True, abortWrites := True\<rparr>, worldAt [0])))
     = Some DeadlineExceeded \<and>
   events (snd (snd (Write [1, 2]
     ((New okConn)\<lparr>abortReads := True, abortWrites := True\<rparr>, worldAt [0])))) = []"
  using Read_abort_fails
    [of "(New okConn)\<lparr>abortReads := True, abortWrites := True\<rparr>" "[1, 2]" "worldAt [0]"]
  by (simp add: eval_defs)

text \<open>
  Claim C8: a Read made while \<^verbatim>\<open>abortReads\<close> is clear, and a Write made while
  \<^verbatim>\<open>abortWrites\<close> is clear, calls the inner stream's read (write) after the coalesced
  push and returns what the inner stream returned, byte count and error; so a partial
  write, a byte count with an error, comes back as the inner stream produced it.
\<close>

theorem Read_delegates:
  "(\<not> abortReads c \<longrightarrow>
      (case setReadDeadline (c, w) of (c1, w1) \<Rightarrow>
         Read b (c, w) = (connRead (Conn c) w1 b, (c1, emit (Inner (CRead b)) w1)))) \<and>
   (\<not> abortWrites c \<longrightarrow>
      (case setWriteDeadline (c, w) of (c1, w1) \<Rightarrow>
         Write b (c, w) = (connWrite (Conn c) w1 b, (c1, emit (Inner (CWrite b)) w1)) \<and>
         (\<forall>n e. connWrite (Conn c) w1 b = (n, Some e) \<longrightarrow>
                fst (Write b (c, w)) = (n, Some e))))"
  by (simp add: Read_def Write_def Conn_Read_def Conn_Write_def setReadDeadline_eq
      setWriteDeadline_eq)

text \<open>An inner stream that writes one byte and fails.\<close>

theorem Read_delegates_witness:
  "\<not> abortReads (New failConn) \<and> \<not> abortWrites (New failConn) \<and>
   connWrite (Conn (New failConn)) (snd (setWriteDeadline (New failConn, worldAt [0]))) [1, 2, 3]
     = (1, Some (ConnError ''write'')) \<and>
   Read [1, 2, 3] (New failConn, worldAt [0]) =
     ((0, Some (ConnError ''read'')),
      (New failConn, (worldAt [0])\<lparr>events := [Inner (CRead [1, 2, 3])]\<rparr>)) \<and>
   Write [1, 2, 3] (New failConn, worldAt [0]) =
     ((1, Some (ConnError ''write'')),
      (New failConn, (worldAt [0])\<lparr>events := [Inner (CWrite [1, 2, 3])]\<rparr>))"
  using Read_delegates [where c = "New failConn" and w = "worldAt [0]" and b = "[1, 2, 3]"]
  by (simp add: eval_defs)

text \<open>
  Claim C10: a Read (Write) made while the direction's abort flag is set returns zero
  bytes with the deadline-exceeded error and leaves the wrapper, every field of it, and
  the world unchanged.
\<close>

theorem Read_abort_unchanged:
  "(abortReads c \<longrightarrow> Read b (c, w) = ((0, Some DeadlineExceeded), (c, w))) \<and>
   (abortWrites c \<longrightarrow> Write b (c, w) = ((0, Some DeadlineExceeded), (c, w)))"
  by (simp add: Read_def Write_def)

theorem Read_abort_unchanged_witness:
  "abortReads ((New okConn)\<lparr>readDeadline := 100 * Millisecond, abortReads := True\<rparr>) \<and>
   Read [7] ((New okConn)\<lparr>readDeadline := 100 * Millisecond, abortReads := True\<rparr>, worldAt [0]) =
     ((0, Some DeadlineExceeded),
      ((New okConn)\<lparr>readDeadline := 100 * Millisecond, abortReads := True\<rparr>, worldAt [0])) \<and>
   abortWrites ((New okConn)\<lparr>writeDeadline := 100 * Millisecond, abortWrites := True\<rparr>) \<and>
   Write [7] ((New okConn)\<lparr>writeDeadline := 100 * Millisecond, abortWrites := True\<rparr>, worldAt [0]) =
     ((0, Some DeadlineExceeded),
      ((New okConn)\<lparr>writeDeadline := 100 * Millisecond, abortWrites := True\<rparr>, worldAt [0]))"
  using
    Read_abort_unchanged
      [of "(New okConn)\<lparr>readDeadline := 100 * Millisecond, abortReads := True\<rparr>" "[7]" "worldAt [0]"]
    Read_abort_unchanged
      [of "(New okConn)\<lparr>writeDeadline := 100 * Millisecond, abortWrites := True\<rparr>" "[7]" "worldAt [0]"]
  by (simp add: New_def)

section \<open>The configured timeouts (claim C9)\<close>

text \<open>
  Claim C9 says that in every state reached from \<^verbatim>\<open>New\<close>, with the builders given
  any duration, each configured timeout is zero or strictly positive. The builders store
  their argument as it is: after \<^verbatim>\<open>WithReadDeadline(-1)\<close> the read timeout is \<open>-1\<close>.
\<close>

theorem builders_store_negative:
  "\<not> (readDeadline (fst (snd (run [OpWithReadDeadline (- 1)] (New okConn, worldAt [0])))) = 0 \<or>
      0 < sint (readDeadline (fst (snd (run [OpWithReadDeadline (- 1)] (New okConn, worldAt [0]))))))"
  by (simp add: eval_defs)

text \<open>
  Claim C9, amended: in every state reached from \<^verbatim>\<open>New\<close> by operations among which no
  builder is given a negative duration, each configured timeout is zero or strictly
  positive.
\<close>

theorem timeouts_zero_or_positive:
  assumes "\<forall>x\<in>set ops. \<not> negativeBuilder x"
  shows "(readDeadline (fst (snd (run ops (New conn, w)))) = 0 \<or>
          0 < sint (readDeadline (fst (snd (run ops (New conn, w)))))) \<and>
         (writeDeadline (fst (snd (run ops (New conn, w)))) = 0 \<or>
          0 < sint (writeDeadline (fst (snd (run ops (New conn, w))))))"
  using run_nonnegative [OF assms, of "(New conn, w)"]
  by (simp add: New_def nonneg_zero_or_positive)

theorem timeouts_zero_or_positive_witness:
  "list_all (\<lambda>x. \<not> negativeBuilder x)
     [OpWithReadDeadline (100 * Millisecond), OpRead [1], OpSetDeadline (T0 - 1),
      OpWithWriteDeadline 0, OpClose] \<and>
   0 < sint (readDeadline (fst (snd (run
       [OpWithReadDeadline (100 * Millisecond), OpRead [1], OpSetDeadline (T0 - 1),
        OpWithWriteDeadline 0, OpClose] (New okConn, worldAt [0]))))) \<and>
   writeDeadline (fst (snd (run
       [OpWithReadDeadline (100 * Millisecond), OpRead [1], OpSetDeadline (T0 - 1),
        OpWithWriteDeadline 0, OpClose] (New okConn, worldAt [0])))) = 0"
  using timeouts_zero_or_positive
    [of "[OpWithReadDeadline (100 * Millisecond), OpRead [1], OpSetDeadline (T0 - 1),
          OpWithWriteDeadline 0, OpClose]" okConn "worldAt [0]"]
  by (simp add: eval_defs Millisecond_def updateInterval_def)

end
